theory Spec2Isabelle
  imports Complex_Main "HOL-Library.Product_Lexorder"
begin

section \<open>Data model of the pricing engine (\<open>src/algorthims.py\<close>)\<close>

text \<open>
  Conventions of the embedding.
  \<^item> In the pricing engine a Python \<open>float\<close> is a \<^typ>\<open>real\<close>: rounding, NaN and
    overflow are not modelled there. The one infinite float the source writes,
    \<open>float('inf')\<close> (the default of \<open>max_discount\<close> and the upper end of the last
    shipping bracket), is the constructor \<open>PosInf\<close> of the type \<open>bound\<close>.
  \<^item> In \<open>loyalty_point_calculation\<close>, whose result is an integer cut from a product of
    floats, a \<open>float\<close> is an IEEE double: a finite value, an infinity or NaN, and every
    quotient and product is rounded to the nearest double, ties to even.
  \<^item> A Python \<open>int\<close> is an \<^typ>\<open>int\<close>; \<open>//\<close> is \<open>div\<close> (both round towards minus
    infinity) and raises \<open>ZeroDivisionError\<close> on a zero divisor.
  \<^item> A \<open>datetime\<close> is an \<^typ>\<open>int\<close> (a count of microseconds); \<open>None\<close> is \<open>None\<close>.
  \<^item> \<open>datetime.now()\<close> is read once in every call of \<open>is_active\<close>. The reading is
    a parameter of \<open>is_active\<close> and of \<open>calculate_item_discount\<close>; the loops of the
    engine take a clock \<open>clk\<close>, whose value \<open>clk n\<close> is the \<open>n\<close>-th reading of the call,
    and count the readings.
  \<^item> A raised exception is the left summand of the result.
\<close>

datatype py_error = ZeroDivisionError | AttributeError

datatype DiscountType = PERCENTAGE | FIXED_AMOUNT | BUY_X_GET_Y | TIERED | BUNDLE

datatype CustomerTier = BRONZE | SILVER | GOLD | PLATINUM | VIP

datatype bound = Fin real | PosInf

type_synonym datetime = int

record Product =
  product_id :: int
  product_name :: string
  price :: real
  category :: string
  stock :: int
  cost_price :: real
  weight :: real

record CartItem =
  product :: Product
  quantity :: int

definition subtotal :: "CartItem \<Rightarrow> real" where
  "subtotal cart_item = price (product cart_item) * real_of_int (quantity cart_item)"

record DiscountRule =
  rule_name :: string
  discount_type :: DiscountType
  rule_value :: real
  min_quantity :: int
  min_amount :: real
  max_discount :: bound
  applicable_categories :: "string list"
  applicable_products :: "int list"
  customer_tiers :: "CustomerTier list"
  start_date :: "datetime option"
  end_date :: "datetime option"
  buy_quantity :: int
  get_quantity :: int
  tier_thresholds :: "(real \<times> real) list"

text \<open>
  \<open>tier_thresholds\<close> is a \<open>Dict[float, float]\<close>; the list holds its items, and the keys
  of a dictionary are distinct.
\<close>

definition wf_thresholds :: "DiscountRule \<Rightarrow> bool" where
  "wf_thresholds rule = distinct (map fst (tier_thresholds rule))"

record Customer =
  customer_id :: string
  customer_name :: string
  tier :: CustomerTier
  total_spent :: real
  total_orders :: int
  join_date :: datetime

subsection \<open>\<open>DiscountRule.is_active\<close> and \<open>Customer.get_tier_discount\<close>\<close>

definition is_active :: "datetime \<Rightarrow> DiscountRule \<Rightarrow> bool" where
  "is_active now rule =
     (if start_date rule \<noteq> None \<and> now < the (start_date rule) then False
      else if end_date rule \<noteq> None \<and> now > the (end_date rule) then False
      else True)"

fun get_tier_discount :: "Customer \<Rightarrow> real" where
  "get_tier_discount c =
     (case tier c of BRONZE \<Rightarrow> 0 | SILVER \<Rightarrow> 5 | GOLD \<Rightarrow> 10 | PLATINUM \<Rightarrow> 15 | VIP \<Rightarrow> 20)"

subsection \<open>Applicability and the discount of one rule on one item\<close>

definition is_rule_applicable :: "CartItem \<Rightarrow> DiscountRule \<Rightarrow> Customer \<Rightarrow> bool" where
  "is_rule_applicable cart_item rule customer =
     (if quantity cart_item < min_quantity rule then False
      else if subtotal cart_item < min_amount rule then False
      else if applicable_categories rule \<noteq> [] \<and>
              category (product cart_item) \<notin> set (applicable_categories rule) then False
      else if applicable_products rule \<noteq> [] \<and>
              product_id (product cart_item) \<notin> set (applicable_products rule) then False
      else if customer_tiers rule \<noteq> [] \<and> tier customer \<notin> set (customer_tiers rule) then False
      else True)"

text \<open>Python's \<open>min(d, cap)\<close> where \<open>cap\<close> may be \<open>float('inf')\<close>.\<close>

fun min_bound :: "real \<Rightarrow> bound \<Rightarrow> real" where
  "min_bound d PosInf = d"
| "min_bound d (Fin c) = min d c"

text \<open>One step of the loop over \<open>sorted(rule.tier_thresholds.items())\<close>.\<close>

definition tier_step :: "real \<Rightarrow> real \<times> real \<Rightarrow> real \<Rightarrow> real" where
  "tier_step sub p discount =
     (if sub \<ge> fst p then sub * (snd p / 100) else discount)"

definition tiered_discount :: "real \<Rightarrow> (real \<times> real) list \<Rightarrow> real" where
  "tiered_discount sub thresholds = fold (tier_step sub) (sort thresholds) 0"

text \<open>The branch on \<open>rule.discount_type\<close>, before the cap.\<close>

definition raw_discount :: "CartItem \<Rightarrow> DiscountRule \<Rightarrow> py_error + real" where
  "raw_discount cart_item rule =
     (case discount_type rule of
        PERCENTAGE \<Rightarrow> Inr (subtotal cart_item * (rule_value rule / 100))
      | FIXED_AMOUNT \<Rightarrow> Inr (min (rule_value rule) (subtotal cart_item))
      | BUY_X_GET_Y \<Rightarrow>
          (if quantity cart_item \<ge> buy_quantity rule then
             (if buy_quantity rule = 0 then Inl ZeroDivisionError
              else
                (let free_items = (quantity cart_item div buy_quantity rule) * get_quantity rule;
                     free_items = min free_items (quantity cart_item)
                 in Inr (real_of_int free_items * price (product cart_item))))
           else Inr 0)
      | TIERED \<Rightarrow> Inr (tiered_discount (subtotal cart_item) (tier_thresholds rule))
      | BUNDLE \<Rightarrow> Inr 0)"

definition calculate_item_discount ::
  "datetime \<Rightarrow> CartItem \<Rightarrow> DiscountRule \<Rightarrow> Customer \<Rightarrow> py_error + real" where
  "calculate_item_discount now cart_item rule customer =
     (if \<not> is_active now rule then Inr 0
      else if \<not> is_rule_applicable cart_item rule customer then Inr 0
      else (case raw_discount cart_item rule of
              Inl e \<Rightarrow> Inl e
            | Inr discount \<Rightarrow> Inr (min_bound discount (max_discount rule))))"

section \<open>The engine\<close>

record PricingEngine =
  discount_rules :: "DiscountRule list"
  tax_rate :: real
  shipping_rates :: "((real \<times> bound) \<times> real) list"

text \<open>\<open>PricingEngine.__init__\<close>: no rules, 10 percent VAT, three shipping brackets.\<close>

definition PricingEngine_init :: PricingEngine where
  "PricingEngine_init =
     \<lparr>discount_rules = [], tax_rate = 0.1,
      shipping_rates =
        [((0, Fin 200000), 50000), ((200000, Fin 500000), 30000), ((500000, PosInf), 0)]\<rparr>"

definition add_discount_rule :: "PricingEngine \<Rightarrow> DiscountRule \<Rightarrow> PricingEngine" where
  "add_discount_rule eng rule = eng\<lparr>discount_rules := discount_rules eng @ [rule]\<rparr>"

text \<open>The engine after \<open>add_discount_rule\<close> has been called for each rule of a list.\<close>

definition engine_with :: "DiscountRule list \<Rightarrow> PricingEngine" where
  "engine_with rules = fold (\<lambda>rule eng. add_discount_rule eng rule) rules PricingEngine_init"

subsection \<open>\<open>calculate_shipping_fee\<close>\<close>

fun less_bound :: "real \<Rightarrow> bound \<Rightarrow> bool" where
  "less_bound x PosInf = True"
| "less_bound x (Fin c) = (x < c)"

text \<open>The loop over the brackets: the first bracket that holds the subtotal wins.\<close>

fun base_fee_loop :: "real \<Rightarrow> ((real \<times> bound) \<times> real) list \<Rightarrow> real" where
  "base_fee_loop sub [] = 0"
| "base_fee_loop sub (((lo, hi), fee) # rest) =
     (if lo \<le> sub \<and> less_bound sub hi then fee else base_fee_loop sub rest)"

definition calculate_shipping_fee :: "PricingEngine \<Rightarrow> real \<Rightarrow> real \<Rightarrow> real" where
  "calculate_shipping_fee eng sub w =
     (let base_fee = base_fee_loop sub (shipping_rates eng)
      in if w > 5.0 then base_fee + (w - 5.0) * 10000 else base_fee)"

subsection \<open>\<open>calculate_best_discount_combination\<close>\<close>

record DiscountEntry =
  entry_product_name :: string
  discount_amount :: real
  entry_rule_name :: string
  original_price :: real

text \<open>
  The key of an item in \<open>item_discounts\<close> is the string \<open>f"{product.id}_{quantity}"\<close>,
  which determines the two integers and is determined by them: the key is the pair.
\<close>

type_synonym item_key = "int \<times> int"

definition item_key_of :: "CartItem \<Rightarrow> item_key" where
  "item_key_of item = (product_id (product item), quantity item)"

record DiscountReport =
  item_discounts :: "item_key \<rightharpoonup> DiscountEntry"
  total_discount :: real
  applied_rules :: "string list"
  report_subtotal :: real

type_synonym clock = "nat \<Rightarrow> datetime"

text \<open>
  The inner loop over \<open>self.discount_rules\<close> for one item. The accumulator is
  \<open>(best_discount, best_rule)\<close>; \<open>n\<close> counts the clock readings made so far.
\<close>

fun best_rule_loop ::
  "clock \<Rightarrow> nat \<Rightarrow> CartItem \<Rightarrow> Customer \<Rightarrow> DiscountRule list \<Rightarrow>
   real \<times> DiscountRule option \<Rightarrow> py_error + (real \<times> DiscountRule option)" where
  "best_rule_loop clk n item customer [] best = Inr best"
| "best_rule_loop clk n item customer (rule # rules) (best_discount, best_rule) =
     (case calculate_item_discount (clk n) item rule customer of
        Inl e \<Rightarrow> Inl e
      | Inr discount \<Rightarrow>
          (if discount > best_discount
           then best_rule_loop clk (Suc n) item customer rules (discount, Some rule)
           else best_rule_loop clk (Suc n) item customer rules (best_discount, best_rule)))"

text \<open>The body of \<open>if best_discount > 0\<close>; \<open>best_rule.name\<close> fails on \<open>None\<close>.\<close>

definition record_item ::
  "CartItem \<Rightarrow> real \<Rightarrow> DiscountRule option \<Rightarrow> DiscountReport \<Rightarrow> py_error + DiscountReport" where
  "record_item item best_discount best_rule results =
     (case best_rule of
        None \<Rightarrow> Inl AttributeError
      | Some rule \<Rightarrow>
          Inr (results
            \<lparr>item_discounts := (item_discounts results)(item_key_of item \<mapsto>
                 \<lparr>entry_product_name = product_name (product item),
                  discount_amount = best_discount,
                  entry_rule_name = rule_name rule,
                  original_price = subtotal item\<rparr>),
             total_discount := total_discount results + best_discount,
             applied_rules :=
               (if rule_name rule \<notin> set (applied_rules results)
                then applied_rules results @ [rule_name rule]
                else applied_rules results)\<rparr>))"

text \<open>The outer loop over \<open>cart_items\<close>.\<close>

fun items_loop ::
  "clock \<Rightarrow> nat \<Rightarrow> DiscountRule list \<Rightarrow> Customer \<Rightarrow> CartItem list \<Rightarrow>
   DiscountReport \<Rightarrow> py_error + DiscountReport" where
  "items_loop clk n rules customer [] results = Inr results"
| "items_loop clk n rules customer (item # items) results =
     (case best_rule_loop clk n item customer rules (0, None) of
        Inl e \<Rightarrow> Inl e
      | Inr (best_discount, best_rule) \<Rightarrow>
          (if best_discount > 0 then
             (case record_item item best_discount best_rule results of
                Inl e \<Rightarrow> Inl e
              | Inr results' \<Rightarrow> items_loop clk (n + length rules) rules customer items results')
           else items_loop clk (n + length rules) rules customer items results))"

definition calculate_best_discount_combination ::
  "PricingEngine \<Rightarrow> clock \<Rightarrow> CartItem list \<Rightarrow> Customer \<Rightarrow> py_error + DiscountReport" where
  "calculate_best_discount_combination eng clk cart_items customer =
     items_loop clk 0 (discount_rules eng) customer cart_items
       \<lparr>item_discounts = Map.empty, total_discount = 0, applied_rules = [],
        report_subtotal = sum_list (map subtotal cart_items)\<rparr>"

subsection \<open>\<open>calculate_final_price\<close>\<close>

record PriceBreakdown =
  pb_subtotal :: real
  product_discount :: real
  customer_tier_discount :: real
  pb_total_discount :: real
  tax_amount :: real
  shipping_fee :: real
  total :: real
  total_weight :: real
  discount_details :: DiscountReport
  savings_percentage :: real

definition calculate_final_price ::
  "PricingEngine \<Rightarrow> clock \<Rightarrow> CartItem list \<Rightarrow> Customer \<Rightarrow> bool \<Rightarrow> py_error + PriceBreakdown" where
  "calculate_final_price eng clk cart_items customer apply_customer_discount =
     (let sub = sum_list (map subtotal cart_items);
          tw = sum_list (map (\<lambda>item. weight (product item) * real_of_int (quantity item)) cart_items)
      in case calculate_best_discount_combination eng clk cart_items customer of
           Inl e \<Rightarrow> Inl e
         | Inr discount_info \<Rightarrow>
             (let pd = total_discount discount_info;
                  cd = (if apply_customer_discount
                        then (sub - pd) * (get_tier_discount customer / 100) else 0);
                  taxable_amount = sub - pd - cd;
                  tax = taxable_amount * tax_rate eng;
                  ship = calculate_shipping_fee eng sub tw
              in Inr \<lparr>pb_subtotal = sub, product_discount = pd, customer_tier_discount = cd,
                      pb_total_discount = pd + cd, tax_amount = tax, shipping_fee = ship,
                      total = sub - pd - cd + tax + ship, total_weight = tw,
                      discount_details = discount_info,
                      savings_percentage = (if sub > 0 then (pd + cd) / sub * 100 else 0)\<rparr>))"

section \<open>Loyalty points\<close>

subsection \<open>IEEE doubles\<close>













subsection \<open>\<open>loyalty_point_calculation\<close>\<close>



subsection \<open>The formula of the specification\<close>






section \<open>Predicates used in the statements\<close>

fun le_bound :: "real \<Rightarrow> bound \<Rightarrow> bool" where
  "le_bound x PosInf = True"
| "le_bound x (Fin c) = (x \<le> c)"

text \<open>A subtotal lies in a shipping bracket: lower end included, upper end excluded.\<close>

definition in_bracket :: "real \<Rightarrow> (real \<times> bound) \<times> real \<Rightarrow> bool" where
  "in_bracket sub b = (fst (fst b) \<le> sub \<and> less_bound sub (snd (fst b)))"

text \<open>
  The source validates nothing. The two predicates below name the inputs on which the
  bounds of a discount hold: a price and a quantity that are not negative, a cap that is
  not negative, a percentage between 0 and 100, a fixed amount that is not negative, at
  least one item to buy and no negative number of free items.
\<close>

definition sane_item :: "CartItem \<Rightarrow> bool" where
  "sane_item item = (0 \<le> price (product item) \<and> 0 \<le> quantity item)"

definition sane_rule :: "DiscountRule \<Rightarrow> bool" where
  "sane_rule rule =
     (le_bound 0 (max_discount rule) \<and>
      (case discount_type rule of
         PERCENTAGE \<Rightarrow> 0 \<le> rule_value rule \<and> rule_value rule \<le> 100
       | FIXED_AMOUNT \<Rightarrow> 0 \<le> rule_value rule
       | BUY_X_GET_Y \<Rightarrow> 1 \<le> buy_quantity rule \<and> 0 \<le> get_quantity rule
       | TIERED \<Rightarrow> list_all (\<lambda>p. 0 \<le> snd p \<and> snd p \<le> 100) (tier_thresholds rule)
       | BUNDLE \<Rightarrow> True))"


text \<open>A rule on which the buy-X-get-Y branch divides by zero.\<close>

definition zero_buy_rule :: "DiscountRule \<Rightarrow> bool" where
  "zero_buy_rule rule = (discount_type rule = BUY_X_GET_Y \<and> buy_quantity rule = 0)"


section \<open>The best-discount selection, in the words of the specification\<close>

text \<open>
  The amount that \<open>calculate_item_discount\<close> returns; 0 stands for a call that raises,
  which no call does when the selection returns a report.
\<close>

definition discount_of :: "datetime \<Rightarrow> CartItem \<Rightarrow> DiscountRule \<Rightarrow> Customer \<Rightarrow> real" where
  "discount_of now item rule customer =
     (case calculate_item_discount now item rule customer of Inl e \<Rightarrow> 0 | Inr d \<Rightarrow> d)"

text \<open>
  The discounts of the rules on one item, each with its rule, in the order of the rule
  list; the rule at position \<open>j\<close> is evaluated at the clock reading \<open>n + j\<close>.
\<close>

fun rule_discounts ::
  "clock \<Rightarrow> nat \<Rightarrow> CartItem \<Rightarrow> Customer \<Rightarrow> DiscountRule list \<Rightarrow> (real \<times> DiscountRule) list" where
  "rule_discounts clk n item customer [] = []"
| "rule_discounts clk n item customer (rule # rules) =
     (discount_of (clk n) item rule customer, rule) # rule_discounts clk (Suc n) item customer rules"

text \<open>
  The best discount of an item is the greatest of 0 and the discounts of the rules. When
  it is positive, the item is assigned the first rule of the list that yields it; when
  it is 0, the item is assigned no rule.
\<close>

definition spec_best :: "(real \<times> DiscountRule) list \<Rightarrow> (real \<times> DiscountRule) option" where
  "spec_best ds =
     (let b = Max (set (0 # map fst ds))
      in if b > 0 then find (\<lambda>p. fst p = b) ds else None)"

text \<open>
  The items that are assigned a rule, in cart order, each with its discount and its
  rule; the readings of the item at position \<open>i\<close> start at \<open>i * length rules\<close>.
\<close>

fun spec_winners ::
  "clock \<Rightarrow> nat \<Rightarrow> DiscountRule list \<Rightarrow> Customer \<Rightarrow> CartItem list \<Rightarrow>
   (CartItem \<times> real \<times> DiscountRule) list" where
  "spec_winners clk n rules customer [] = []"
| "spec_winners clk n rules customer (item # items) =
     (case spec_best (rule_discounts clk n item customer rules) of
        None \<Rightarrow> []
      | Some (d, rule) \<Rightarrow> [(item, d, rule)])
     @ spec_winners clk (n + length rules) rules customer items"

text \<open>The entry of the itemized report for an item that is assigned a rule.\<close>

definition spec_entry :: "CartItem \<times> real \<times> DiscountRule \<Rightarrow> item_key \<times> DiscountEntry" where
  "spec_entry w =
     (case w of (item, d, rule) \<Rightarrow>
        (item_key_of item,
         \<lparr>entry_product_name = product_name (product item), discount_amount = d,
          entry_rule_name = rule_name rule, original_price = subtotal item\<rparr>))"

definition winner_discount :: "CartItem \<times> real \<times> DiscountRule \<Rightarrow> real" where
  "winner_discount w = fst (snd w)"

definition winner_name :: "CartItem \<times> real \<times> DiscountRule \<Rightarrow> string" where
  "winner_name w = rule_name (snd (snd w))"

section \<open>Example data\<close>

definition mk_product :: "int \<Rightarrow> real \<Rightarrow> Product" where
  "mk_product i p =
     \<lparr>product_id = i, product_name = ''P'', price = p, category = ''Electronics'',
      stock = 0, cost_price = 0, weight = 0\<rparr>"

definition mk_rule :: "string \<Rightarrow> DiscountType \<Rightarrow> real \<Rightarrow> DiscountRule" where
  "mk_rule n t v =
     \<lparr>rule_name = n, discount_type = t, rule_value = v, min_quantity = 0, min_amount = 0,
      max_discount = PosInf, applicable_categories = [], applicable_products = [],
      customer_tiers = [], start_date = None, end_date = None, buy_quantity = 0,
      get_quantity = 0, tier_thresholds = []\<rparr>"

definition mk_customer :: "CustomerTier \<Rightarrow> Customer" where
  "mk_customer t =
     \<lparr>customer_id = ''C'', customer_name = ''N'', tier = t, total_spent = 0,
      total_orders = 0, join_date = 0\<rparr>"

definition flash_sale :: DiscountRule where
  "flash_sale = (mk_rule ''Flash'' PERCENTAGE 20)
     \<lparr>applicable_categories := [''Electronics''], max_discount := Fin 150000\<rparr>"

definition bronze_only :: DiscountRule where
  "bronze_only = (mk_rule ''Bronze'' PERCENTAGE 50)\<lparr>customer_tiers := [BRONZE]\<rparr>"

definition one_item :: "real \<Rightarrow> int \<Rightarrow> CartItem list" where
  "one_item p q = [\<lparr>product = mk_product 1 p, quantity = q\<rparr>]"

definition three_rules :: "DiscountRule list" where
  "three_rules = [mk_rule ''A'' PERCENTAGE 10, mk_rule ''B'' FIXED_AMOUNT 100, mk_rule ''C'' PERCENTAGE 10]"

definition three_items :: "CartItem list" where
  "three_items =
     [\<lparr>product = mk_product 1 1000, quantity = 1\<rparr>,
      \<lparr>product = mk_product 2 100, quantity = 2\<rparr>,
      \<lparr>product = mk_product 3 0, quantity = 1\<rparr>]"

section \<open>Rules with an empty activity window\<close>

lemma is_active_empty_window:
  assumes "start_date rule = Some s" "end_date rule = Some e" "e < s"
  shows "\<not> is_active now rule"
  using assms by (auto simp: is_active_def)

text \<open>
  C8. A rule whose \<open>end_date\<close> is set and lies strictly before its \<open>start_date\<close> is
  inactive at every evaluation time, and \<open>calculate_item_discount\<close> returns 0 for
  it on every cart item and customer.
\<close>

theorem C8_empty_window_inactive:
  assumes "start_date rule = Some s" and "end_date rule = Some e" and "e < s"
  shows "\<not> is_active now rule \<and> calculate_item_discount now item rule customer = Inr 0"
  using assms by (simp add: calculate_item_discount_def is_active_empty_window)

theorem C8_empty_window_inactive_witness:
  "\<not> is_active 15 ((mk_rule ''R'' PERCENTAGE 20)\<lparr>start_date := Some 20, end_date := Some 10\<rparr>)
   \<and> calculate_item_discount 15 \<lparr>product = mk_product 1 100, quantity = 2\<rparr>
        ((mk_rule ''R'' PERCENTAGE 20)\<lparr>start_date := Some 20, end_date := Some 10\<rparr>)
        (mk_customer BRONZE) = Inr 0"
  using C8_empty_window_inactive
    [of "(mk_rule ''R'' PERCENTAGE 20)\<lparr>start_date := Some 20, end_date := Some 10\<rparr>" 20 10 15
        "\<lparr>product = mk_product 1 100, quantity = 2\<rparr>" "mk_customer BRONZE"]
  by (simp add: mk_rule_def)


section \<open>Division by zero in the buy-X-get-Y branch\<close>

text \<open>
  C10. \<open>calculate_item_discount\<close> returns an amount for every item, customer and rule
  such that a rule of type \<open>BUY_X_GET_Y\<close> has \<open>buy_quantity \<ge> 1\<close>. The precondition is
  needed: an active, applicable \<open>BUY_X_GET_Y\<close> rule with \<open>buy_quantity = 0\<close> (the default
  of the field) on an item of quantity at least 0 divides by zero, and the call raises
  \<open>ZeroDivisionError\<close> instead of returning an amount.
\<close>

theorem C10_item_discount_returns:
  "((discount_type rule = BUY_X_GET_Y \<longrightarrow> buy_quantity rule \<ge> 1) \<longrightarrow>
      (\<exists>d. calculate_item_discount now item rule customer = Inr d))
   \<and> (is_active now rule \<and> is_rule_applicable item rule customer \<and>
       discount_type rule = BUY_X_GET_Y \<and> buy_quantity rule = 0 \<and> quantity item \<ge> 0 \<longrightarrow>
       calculate_item_discount now item rule customer = Inl ZeroDivisionError)"
  by (cases "discount_type rule")
     (auto simp: calculate_item_discount_def raw_discount_def Let_def)

theorem C10_item_discount_returns_witness:
  "(discount_type ((mk_rule ''B'' BUY_X_GET_Y 0)\<lparr>buy_quantity := 2, get_quantity := 1\<rparr>) = BUY_X_GET_Y \<and>
    buy_quantity ((mk_rule ''B'' BUY_X_GET_Y 0)\<lparr>buy_quantity := 2, get_quantity := 1\<rparr>) \<ge> 1 \<and>
    calculate_item_discount 0 \<lparr>product = mk_product 1 100, quantity = 4\<rparr>
      ((mk_rule ''B'' BUY_X_GET_Y 0)\<lparr>buy_quantity := 2, get_quantity := 1\<rparr>) (mk_customer BRONZE) = Inr 200)
   \<and> (is_active 0 (mk_rule ''B'' BUY_X_GET_Y 0) \<and>
       is_rule_applicable \<lparr>product = mk_product 1 100, quantity = 4\<rparr> (mk_rule ''B'' BUY_X_GET_Y 0) (mk_customer BRONZE) \<and>
       discount_type (mk_rule ''B'' BUY_X_GET_Y 0) = BUY_X_GET_Y \<and>
       buy_quantity (mk_rule ''B'' BUY_X_GET_Y 0) = 0 \<and>
       quantity \<lparr>product = mk_product 1 100, quantity = 4\<rparr> \<ge> 0 \<and>
       calculate_item_discount 0 \<lparr>product = mk_product 1 100, quantity = 4\<rparr>
         (mk_rule ''B'' BUY_X_GET_Y 0) (mk_customer BRONZE) = Inl ZeroDivisionError)"
  using C10_item_discount_returns
      [of "(mk_rule ''B'' BUY_X_GET_Y 0)\<lparr>buy_quantity := 2, get_quantity := 1\<rparr>" 0
          "\<lparr>product = mk_product 1 100, quantity = 4\<rparr>" "mk_customer BRONZE"]
    C10_item_discount_returns
      [of "mk_rule ''B'' BUY_X_GET_Y 0" 0
          "\<lparr>product = mk_product 1 100, quantity = 4\<rparr>" "mk_customer BRONZE"]
  by (simp add: calculate_item_discount_def is_active_def is_rule_applicable_def raw_discount_def
      mk_rule_def mk_product_def mk_customer_def subtotal_def)

section \<open>Bounds of the discount of one rule on one item\<close>

lemma min_bound_le_cap: "le_bound 0 cap \<Longrightarrow> le_bound (min_bound d cap) cap"
  by (cases cap) simp_all

lemma min_bound_le: "min_bound d cap \<le> d"
  by (cases cap) simp_all

lemma min_bound_nonneg: "le_bound 0 cap \<Longrightarrow> 0 \<le> d \<Longrightarrow> 0 \<le> min_bound d cap"
  by (cases cap) simp_all

lemma item_discount_le_cap:
  assumes "le_bound 0 (max_discount rule)"
    and "calculate_item_discount now item rule customer = Inr d"
  shows "le_bound d (max_discount rule)"
  using assms
  by (auto simp: calculate_item_discount_def min_bound_le_cap split: if_splits sum.splits)

lemma subtotal_nonneg: "sane_item item \<Longrightarrow> 0 \<le> subtotal item"
  by (simp add: sane_item_def subtotal_def)

lemma fold_tier_step_range:
  assumes "0 \<le> sub" and "\<forall>p\<in>set xs. 0 \<le> snd p \<and> snd p \<le> 100" and "0 \<le> d" and "d \<le> sub"
  shows "0 \<le> fold (tier_step sub) xs d \<and> fold (tier_step sub) xs d \<le> sub"
  using assms
proof (induction xs arbitrary: d)
  case Nil
  then show ?case by simp
next
  case (Cons p xs)
  have s: "0 \<le> snd p" "snd p \<le> 100" using Cons.prems(2) by simp_all
  have lo: "0 \<le> sub * (snd p / 100)" using Cons.prems(1) s by simp
  have "sub * (snd p / 100) \<le> sub * 1"
    using Cons.prems(1) s by (intro mult_left_mono) simp_all
  then have hi: "sub * (snd p / 100) \<le> sub" by simp
  have "0 \<le> tier_step sub p d \<and> tier_step sub p d \<le> sub"
    using lo hi Cons.prems(3,4) by (simp add: tier_step_def)
  then show ?case using Cons.IH [of "tier_step sub p d"] Cons.prems(1,2) by simp
qed

lemma tiered_discount_range:
  assumes "0 \<le> sub" and "list_all (\<lambda>p. 0 \<le> snd p \<and> snd p \<le> 100) thresholds"
  shows "0 \<le> tiered_discount sub thresholds \<and> tiered_discount sub thresholds \<le> sub"
  unfolding tiered_discount_def
  using assms by (intro fold_tier_step_range) (simp_all add: list_all_iff)

lemma free_items_range:
  fixes q b g :: int
  assumes "0 \<le> q" "1 \<le> b" "0 \<le> g"
  shows "0 \<le> min (q div b * g) q \<and> min (q div b * g) q \<le> q"
proof -
  have "0 \<le> q div b" using assms by (simp add: pos_imp_zdiv_nonneg_iff)
  then have "0 \<le> q div b * g" using assms by simp
  then show ?thesis using assms by simp
qed

lemma raw_discount_range:
  assumes "sane_item item" and "sane_rule rule"
  shows "\<exists>d. raw_discount item rule = Inr d \<and> 0 \<le> d \<and> d \<le> subtotal item"
proof (cases "discount_type rule")
  case PERCENTAGE
  have v: "0 \<le> rule_value rule" "rule_value rule \<le> 100"
    using assms(2) PERCENTAGE by (simp_all add: sane_rule_def)
  have s: "0 \<le> subtotal item" using assms(1) by (rule subtotal_nonneg)
  have r: "raw_discount item rule = Inr (subtotal item * (rule_value rule / 100))"
    using PERCENTAGE by (simp add: raw_discount_def)
  have "subtotal item * (rule_value rule / 100) \<le> subtotal item * 1"
    using s v by (intro mult_left_mono) simp_all
  then have hi: "subtotal item * (rule_value rule / 100) \<le> subtotal item" by simp
  have lo: "0 \<le> subtotal item * (rule_value rule / 100)"
    using s v by (intro mult_nonneg_nonneg) simp_all
  show ?thesis using r lo hi by blast
next
  case FIXED_AMOUNT
  then show ?thesis
    using assms subtotal_nonneg [OF assms(1)] by (simp add: raw_discount_def sane_rule_def)
next
  case BUY_X_GET_Y
  have b: "1 \<le> buy_quantity rule" "0 \<le> get_quantity rule"
    using assms(2) BUY_X_GET_Y by (simp_all add: sane_rule_def)
  have q: "0 \<le> quantity item" "0 \<le> price (product item)"
    using assms(1) by (simp_all add: sane_item_def)
  define f where "f = min (quantity item div buy_quantity rule * get_quantity rule) (quantity item)"
  have f: "0 \<le> f" "f \<le> quantity item"
    using free_items_range [OF q(1) b] by (simp_all add: f_def)
  have "real_of_int f * price (product item) \<le> real_of_int (quantity item) * price (product item)"
    using f q by (intro mult_right_mono) simp_all
  moreover have "0 \<le> real_of_int f * price (product item)" using f q by simp
  ultimately show ?thesis
    using BUY_X_GET_Y b subtotal_nonneg [OF assms(1)]
    by (simp add: raw_discount_def Let_def f_def subtotal_def mult.commute)
next
  case TIERED
  then show ?thesis
    using tiered_discount_range [OF subtotal_nonneg [OF assms(1)], of "tier_thresholds rule"] assms(2)
    by (simp add: raw_discount_def sane_rule_def)
next
  case BUNDLE
  then show ?thesis using subtotal_nonneg [OF assms(1)] by (simp add: raw_discount_def)
qed

lemma item_discount_range:
  assumes "sane_item item" and "sane_rule rule"
  shows "\<exists>d. calculate_item_discount now item rule customer = Inr d \<and> 0 \<le> d \<and> d \<le> subtotal item"
proof -
  obtain d where d: "raw_discount item rule = Inr d" "0 \<le> d" "d \<le> subtotal item"
    using raw_discount_range [OF assms] by blast
  have cap: "le_bound 0 (max_discount rule)" using assms(2) by (simp add: sane_rule_def)
  have "0 \<le> min_bound d (max_discount rule)" using cap d(2) by (rule min_bound_nonneg)
  moreover have "min_bound d (max_discount rule) \<le> subtotal item"
    using min_bound_le [of d "max_discount rule"] d(3) by linarith
  ultimately show ?thesis
    using d subtotal_nonneg [OF assms(1)] by (simp add: calculate_item_discount_def)
qed

text \<open>
  C2, as the claim states it, fails: a percentage rule of 150 percent on an item of
  subtotal 100 yields 150, more than the subtotal, and a percentage rule of minus 10
  percent yields a negative amount.
\<close>

theorem C2_discount_bounds_counterexample:
  "calculate_item_discount 0 \<lparr>product = mk_product 1 100, quantity = 1\<rparr>
     (mk_rule ''R'' PERCENTAGE 150) (mk_customer BRONZE) = Inr 150
   \<and> subtotal \<lparr>product = mk_product 1 100, quantity = 1\<rparr> = 100
   \<and> calculate_item_discount 0 \<lparr>product = mk_product 1 100, quantity = 1\<rparr>
     (mk_rule ''R'' PERCENTAGE (-10)) (mk_customer BRONZE) = Inr (-10)"
  by (simp add: calculate_item_discount_def is_active_def is_rule_applicable_def raw_discount_def
      mk_rule_def mk_product_def mk_customer_def subtotal_def)


text \<open>
  C2, amended. Whenever \<open>calculate_item_discount\<close> returns an amount for a rule whose
  cap is not negative, the amount is at most the cap. For every item with a price and a
  quantity that are not negative, and every rule with a cap that is not negative, a
  percentage (of the rule or of each of its tiers) between 0 and 100, a fixed amount
  that is not negative, \<open>buy_quantity \<ge> 1\<close> and \<open>get_quantity \<ge> 0\<close>,
  \<open>calculate_item_discount\<close> returns an amount that is at least 0, at most the item's
  subtotal and at most the cap.
\<close>

theorem C2_discount_bounds:
  "(le_bound 0 (max_discount rule) \<and> calculate_item_discount now item rule customer = Inr d \<longrightarrow>
      le_bound d (max_discount rule))
   \<and> (sane_item item \<and> sane_rule rule \<longrightarrow>
        (\<exists>d'. calculate_item_discount now item rule customer = Inr d' \<and>
              0 \<le> d' \<and> d' \<le> subtotal item \<and> le_bound d' (max_discount rule)))"
proof (intro conjI impI)
  assume "le_bound 0 (max_discount rule) \<and> calculate_item_discount now item rule customer = Inr d"
  then show "le_bound d (max_discount rule)" using item_discount_le_cap by blast
next
  assume h: "sane_item item \<and> sane_rule rule"
  then obtain d' where d': "calculate_item_discount now item rule customer = Inr d'"
      "0 \<le> d'" "d' \<le> subtotal item"
    using item_discount_range by blast
  have "le_bound 0 (max_discount rule)" using h by (simp add: sane_rule_def)
  then have "le_bound d' (max_discount rule)" using d'(1) by (rule item_discount_le_cap)
  with d' show "\<exists>d'. calculate_item_discount now item rule customer = Inr d' \<and>
              0 \<le> d' \<and> d' \<le> subtotal item \<and> le_bound d' (max_discount rule)" by blast
qed

theorem C2_discount_bounds_witness:
  "sane_item \<lparr>product = mk_product 1 100, quantity = 4\<rparr>
   \<and> sane_rule ((mk_rule ''B'' BUY_X_GET_Y 0)\<lparr>buy_quantity := 2, get_quantity := 1, max_discount := Fin 150\<rparr>)
   \<and> calculate_item_discount 0 \<lparr>product = mk_product 1 100, quantity = 4\<rparr>
     ((mk_rule ''B'' BUY_X_GET_Y 0)\<lparr>buy_quantity := 2, get_quantity := 1, max_discount := Fin 150\<rparr>)
     (mk_customer BRONZE) = Inr 150
   \<and> le_bound 150 (Fin 150) \<and> (150::real) \<le> subtotal \<lparr>product = mk_product 1 100, quantity = 4\<rparr>"
  using C2_discount_bounds [of "(mk_rule ''B'' BUY_X_GET_Y 0)\<lparr>buy_quantity := 2, get_quantity := 1, max_discount := Fin 150\<rparr>"
      0 "\<lparr>product = mk_product 1 100, quantity = 4\<rparr>" "mk_customer BRONZE" 150]
  by (simp add: calculate_item_discount_def is_active_def is_rule_applicable_def raw_discount_def
      mk_rule_def mk_product_def mk_customer_def subtotal_def sane_item_def sane_rule_def)


section \<open>The shipping fee\<close>

lemma engine_with_fold:
  "fold (\<lambda>rule eng. add_discount_rule eng rule) rules eng =
     eng\<lparr>discount_rules := discount_rules eng @ rules\<rparr>"
  by (induction rules arbitrary: eng) (simp_all add: add_discount_rule_def)

lemma engine_with_fields:
  "discount_rules (engine_with rules) = rules"
  "tax_rate (engine_with rules) = 1 / 10"
  "shipping_rates (engine_with rules) =
     [((0, Fin 200000), 50000), ((200000, Fin 500000), 30000), ((500000, PosInf), 0)]"
  by (simp_all add: engine_with_def engine_with_fold PricingEngine_init_def)

text \<open>
  C6. For every subtotal that is not negative, \<open>calculate_shipping_fee\<close> of an engine
  with the constructor's brackets returns 50,000 below 200,000, 30,000 from 200,000
  to below 500,000 and 0 from 500,000 on, plus \<open>(weight - 5) * 10,000\<close> when the
  weight is above 5 and nothing otherwise; exactly one bracket holds the subtotal, so
  the half-open brackets neither overlap nor leave a gap on the non-negative reals.
\<close>

theorem C6_shipping_fee:
  assumes "0 \<le> sub"
  shows "calculate_shipping_fee (engine_with rules) sub w =
           (if sub < 200000 then 50000 else if sub < 500000 then 30000 else 0)
           + (if w > 5 then (w - 5) * 10000 else 0)
         \<and> length (filter (in_bracket sub) (shipping_rates (engine_with rules))) = 1"
  using assms by (auto simp: calculate_shipping_fee_def engine_with_fields in_bracket_def)

theorem C6_shipping_fee_witness:
  "(0::real) \<le> 200000
   \<and> calculate_shipping_fee (engine_with []) 200000 6 = 40000
   \<and> length (filter (in_bracket 200000) (shipping_rates (engine_with []))) = 1"
  using C6_shipping_fee [of 200000 "[]" 6] by simp

section \<open>Loyalty points\<close>




































section \<open>Tiered rules\<close>

lemma fold_tier_step_unmet:
  "\<forall>p\<in>set xs. sub < fst p \<Longrightarrow> fold (tier_step sub) xs d = d"
  by (induction xs arbitrary: d) (simp_all add: tier_step_def)

lemma fold_tier_step_highest:
  assumes "sorted (map fst xs)" and "distinct (map fst xs)"
    and "(t, pct) \<in> set xs" and "t \<le> sub"
    and "\<forall>p\<in>set xs. fst p \<le> sub \<longrightarrow> fst p \<le> t"
  shows "fold (tier_step sub) xs d = sub * (pct / 100)"
  using assms
proof (induction xs arbitrary: d)
  case Nil
  then show ?case by simp
next
  case (Cons x xs)
  show ?case
  proof (cases "x = (t, pct)")
    case True
    have "\<forall>p\<in>set xs. sub < fst p"
    proof
      fix p assume p: "p \<in> set xs"
      have "t \<le> fst p" using Cons.prems(1) p True by auto
      moreover have "fst p \<noteq> t" using Cons.prems(2) p True by auto
      ultimately have "t < fst p" by simp
      then show "sub < fst p" using Cons.prems(5) p by fastforce
    qed
    then have keep: "fold (tier_step sub) xs (tier_step sub x d) = tier_step sub x d"
      by (rule fold_tier_step_unmet)
    have "fold (tier_step sub) (x # xs) d = fold (tier_step sub) xs (tier_step sub x d)"
      by simp
    also have "\<dots> = tier_step sub x d" by (rule keep)
    also have "\<dots> = sub * (pct / 100)"
      using True Cons.prems(4) by (simp add: tier_step_def)
    finally show ?thesis .
  next
    case False
    then have "(t, pct) \<in> set xs" using Cons.prems(3) by simp
    then show ?thesis using Cons.IH [of "tier_step sub x d"] Cons.prems by simp
  qed
qed

lemma sorted_map_fst:
  fixes xs :: "(real \<times> real) list"
  shows "sorted xs \<Longrightarrow> sorted (map fst xs)"
  by (induction xs) (auto simp: less_eq_prod_def)

lemma distinct_fst_sort:
  fixes xs :: "(real \<times> real) list"
  shows "distinct (map fst (sort xs)) = distinct (map fst xs)"
  by (simp add: distinct_map)

lemma tiered_discount_highest:
  assumes "distinct (map fst thresholds)"
    and "(t, pct) \<in> set thresholds" and "t \<le> sub"
    and "\<forall>p\<in>set thresholds. fst p \<le> sub \<longrightarrow> fst p \<le> t"
  shows "tiered_discount sub thresholds = sub * (pct / 100)"
  unfolding tiered_discount_def
  using assms by (intro fold_tier_step_highest) (simp_all add: sorted_map_fst distinct_fst_sort)

lemma tiered_discount_unmet:
  assumes "\<forall>p\<in>set thresholds. sub < fst p"
  shows "tiered_discount sub thresholds = 0"
  unfolding tiered_discount_def using assms by (intro fold_tier_step_unmet) simp

text \<open>
  C7. For an active, applicable Tiered rule (whose thresholds, the keys of a dictionary,
  are distinct), \<open>calculate_item_discount\<close> visits the pairs in ascending order of
  threshold and overwrites the candidate at every threshold the subtotal reaches: when
  \<open>(t, pct)\<close> is the highest threshold reached, the discount is \<open>subtotal * pct / 100\<close>
  (capped by \<open>max_discount\<close>), not a sum over the tiers, and 0 (capped) when no
  threshold is reached. With thresholds 10,000,000: 5 and 20,000,000: 10 and a subtotal
  of 25,000,000 the discount is 2,500,000.
\<close>

theorem C7_tiered_highest_threshold:
  assumes "is_active now rule" and "is_rule_applicable item rule customer"
    and "discount_type rule = TIERED" and "wf_thresholds rule"
  shows "sorted (map fst (sort (tier_thresholds rule)))
    \<and> ((t, pct) \<in> set (tier_thresholds rule) \<and> t \<le> subtotal item \<and>
        (\<forall>p\<in>set (tier_thresholds rule). fst p \<le> subtotal item \<longrightarrow> fst p \<le> t) \<longrightarrow>
        calculate_item_discount now item rule customer =
          Inr (min_bound (subtotal item * (pct / 100)) (max_discount rule)))
    \<and> ((\<forall>p\<in>set (tier_thresholds rule). subtotal item < fst p) \<longrightarrow>
        calculate_item_discount now item rule customer = Inr (min_bound 0 (max_discount rule)))
    \<and> calculate_item_discount 0 \<lparr>product = mk_product 1 25000000, quantity = 1\<rparr>
         ((mk_rule ''T'' TIERED 0)\<lparr>tier_thresholds := [(10000000, 5), (20000000, 10)]\<rparr>)
         (mk_customer BRONZE) = Inr 2500000"
proof (intro conjI impI)
  show "sorted (map fst (sort (tier_thresholds rule)))"
    by (simp add: sorted_map_fst)
next
  assume h: "(t, pct) \<in> set (tier_thresholds rule) \<and> t \<le> subtotal item \<and>
        (\<forall>p\<in>set (tier_thresholds rule). fst p \<le> subtotal item \<longrightarrow> fst p \<le> t)"
  have "distinct (map fst (tier_thresholds rule))"
    using assms(4) by (simp add: wf_thresholds_def)
  then have td: "tiered_discount (subtotal item) (tier_thresholds rule) = subtotal item * (pct / 100)"
    using h by (intro tiered_discount_highest [where t = t]) simp_all
  have "calculate_item_discount now item rule customer =
          Inr (min_bound (tiered_discount (subtotal item) (tier_thresholds rule)) (max_discount rule))"
    using assms by (simp add: calculate_item_discount_def raw_discount_def)
  then show "calculate_item_discount now item rule customer =
          Inr (min_bound (subtotal item * (pct / 100)) (max_discount rule))"
    unfolding td .
next
  assume "\<forall>p\<in>set (tier_thresholds rule). subtotal item < fst p"
  then have "tiered_discount (subtotal item) (tier_thresholds rule) = 0"
    by (rule tiered_discount_unmet)
  then show "calculate_item_discount now item rule customer = Inr (min_bound 0 (max_discount rule))"
    using assms by (simp add: calculate_item_discount_def raw_discount_def)
next
  show "calculate_item_discount 0 \<lparr>product = mk_product 1 25000000, quantity = 1\<rparr>
         ((mk_rule ''T'' TIERED 0)\<lparr>tier_thresholds := [(10000000, 5), (20000000, 10)]\<rparr>)
         (mk_customer BRONZE) = Inr 2500000"
    by (simp add: calculate_item_discount_def is_active_def is_rule_applicable_def raw_discount_def
      mk_rule_def mk_product_def mk_customer_def subtotal_def tiered_discount_def tier_step_def)
qed

theorem C7_tiered_highest_threshold_witness:
  "is_active 0 ((mk_rule ''T'' TIERED 0)\<lparr>tier_thresholds := [(20000000, 10), (10000000, 5), (50000000, 15)]\<rparr>)
   \<and> is_rule_applicable \<lparr>product = mk_product 1 25000000, quantity = 1\<rparr>
       ((mk_rule ''T'' TIERED 0)\<lparr>tier_thresholds := [(20000000, 10), (10000000, 5), (50000000, 15)]\<rparr>) (mk_customer BRONZE)
   \<and> wf_thresholds ((mk_rule ''T'' TIERED 0)\<lparr>tier_thresholds := [(20000000, 10), (10000000, 5), (50000000, 15)]\<rparr>)
   \<and> calculate_item_discount 0 \<lparr>product = mk_product 1 25000000, quantity = 1\<rparr>
       ((mk_rule ''T'' TIERED 0)\<lparr>tier_thresholds := [(20000000, 10), (10000000, 5), (50000000, 15)]\<rparr>)
       (mk_customer BRONZE) = Inr 2500000
   \<and> calculate_item_discount 0 \<lparr>product = mk_product 1 5000000, quantity = 1\<rparr>
       ((mk_rule ''T'' TIERED 0)\<lparr>tier_thresholds := [(20000000, 10), (10000000, 5), (50000000, 15)]\<rparr>)
       (mk_customer BRONZE) = Inr 0"
  using C7_tiered_highest_threshold [of 0 "(mk_rule ''T'' TIERED 0)\<lparr>tier_thresholds := [(20000000, 10), (10000000, 5), (50000000, 15)]\<rparr>"
      "\<lparr>product = mk_product 1 25000000, quantity = 1\<rparr>" "mk_customer BRONZE" 20000000 10]
    C7_tiered_highest_threshold [of 0 "(mk_rule ''T'' TIERED 0)\<lparr>tier_thresholds := [(20000000, 10), (10000000, 5), (50000000, 15)]\<rparr>"
      "\<lparr>product = mk_product 1 5000000, quantity = 1\<rparr>" "mk_customer BRONZE" 20000000 10]
  by (simp add: is_active_def is_rule_applicable_def wf_thresholds_def
      mk_rule_def mk_product_def mk_customer_def subtotal_def)


section \<open>Failures of the pipeline\<close>

lemma item_discount_error:
  assumes "calculate_item_discount now item rule customer = Inl e"
  shows "e = ZeroDivisionError \<and> zero_buy_rule rule"
  using assms
  by (cases "discount_type rule")
     (auto simp: calculate_item_discount_def raw_discount_def zero_buy_rule_def Let_def
           split: if_splits sum.splits)

lemma best_rule_loop_error:
  assumes "best_rule_loop clk n item customer rules best = Inl e"
  shows "e = ZeroDivisionError \<and> list_ex zero_buy_rule rules"
  using assms
proof (induction rules arbitrary: n best)
  case Nil
  then show ?case by simp
next
  case (Cons rule rules)
  obtain bd br where best: "best = (bd, br)" by (cases best)
  show ?case
  proof (cases "calculate_item_discount (clk n) item rule customer")
    case (Inl e')
    then have "e' = e" using Cons.prems best by simp
    then show ?thesis using item_discount_error [OF Inl] by simp
  next
    case (Inr d)
    then show ?thesis using Cons.prems Cons.IH best by (auto split: if_splits)
  qed
qed

lemma best_rule_loop_rule:
  assumes "best_rule_loop clk n item customer rules (bd, br) = Inr (bd', br')"
    and "0 < bd \<longrightarrow> br \<noteq> None"
  shows "0 < bd' \<longrightarrow> br' \<noteq> None"
  using assms
proof (induction rules arbitrary: n bd br)
  case Nil
  then show ?case by simp
next
  case (Cons rule rules)
  show ?case
  proof (cases "calculate_item_discount (clk n) item rule customer")
    case (Inl e)
    then show ?thesis using Cons.prems by simp
  next
    case (Inr d)
    show ?thesis
    proof (cases "d > bd")
      case True
      then have "best_rule_loop clk (Suc n) item customer rules (d, Some rule) = Inr (bd', br')"
        using Cons.prems(1) Inr by simp
      then show ?thesis by (rule Cons.IH) simp
    next
      case False
      then have "best_rule_loop clk (Suc n) item customer rules (bd, br) = Inr (bd', br')"
        using Cons.prems(1) Inr by simp
      then show ?thesis using Cons.prems(2) by (rule Cons.IH)
    qed
  qed
qed

lemma record_item_Some:
  "br \<noteq> None \<Longrightarrow> \<exists>res'. record_item item bd br res = Inr res'"
  by (cases br) (simp_all add: record_item_def)

lemma items_loop_error:
  assumes "items_loop clk n rules customer items res = Inl e"
  shows "e = ZeroDivisionError \<and> list_ex zero_buy_rule rules"
  using assms
proof (induction items arbitrary: n res)
  case Nil
  then show ?case by simp
next
  case (Cons item items)
  show ?case
  proof (cases "best_rule_loop clk n item customer rules (0, None)")
    case (Inl e')
    then have "e' = e" using Cons.prems by simp
    then show ?thesis using best_rule_loop_error [OF Inl] by simp
  next
    case (Inr best)
    obtain bd br where best: "best = (bd, br)" by (cases best)
    have rule: "0 < bd \<longrightarrow> br \<noteq> None"
      using Inr best best_rule_loop_rule [of clk n item customer rules 0 None bd br] by simp
    show ?thesis
    proof (cases "0 < bd")
      case True
      then obtain res' where res': "record_item item bd br res = Inr res'"
        using rule record_item_Some by blast
      then have "items_loop clk (n + length rules) rules customer items res' = Inl e"
        using Cons.prems Inr best True by simp
      then show ?thesis by (rule Cons.IH)
    next
      case False
      then have "items_loop clk (n + length rules) rules customer items res = Inl e"
        using Cons.prems Inr best by simp
      then show ?thesis by (rule Cons.IH)
    qed
  qed
qed

lemma best_combination_error:
  assumes "calculate_best_discount_combination eng clk cart customer = Inl e"
  shows "e = ZeroDivisionError \<and> list_ex zero_buy_rule (discount_rules eng)"
  using assms unfolding calculate_best_discount_combination_def by (rule items_loop_error)

lemma final_price_error:
  assumes "calculate_final_price eng clk cart customer flag = Inl e"
  shows "e = ZeroDivisionError \<and> list_ex zero_buy_rule (discount_rules eng)"
proof (cases "calculate_best_discount_combination eng clk cart customer")
  case (Inl e')
  then have "e' = e" using assms by (simp add: calculate_final_price_def Let_def)
  then show ?thesis using best_combination_error [OF Inl] by simp
next
  case (Inr rep)
  then show ?thesis using assms by (simp add: calculate_final_price_def Let_def)
qed

lemma final_price_returns:
  assumes "\<not> list_ex zero_buy_rule (discount_rules eng)"
  shows "\<exists>r. calculate_final_price eng clk cart customer flag = Inr r"
proof (cases "calculate_final_price eng clk cart customer flag")
  case (Inl e)
  then show ?thesis using final_price_error [OF Inl] assms by simp
next
  case (Inr r)
  then show ?thesis by blast
qed


lemmas eval_defs =
  calculate_final_price_def calculate_best_discount_combination_def engine_with_fields
  calculate_shipping_fee_def subtotal_def calculate_item_discount_def is_active_def
  is_rule_applicable_def raw_discount_def record_item_def item_key_of_def
  mk_rule_def mk_product_def mk_customer_def flash_sale_def bronze_only_def one_item_def


section \<open>The pricing pipeline\<close>

text \<open>
  C1. Whenever \<open>calculate_final_price\<close> returns a breakdown, its stages are composed in
  the fixed order: the subtotal is the sum of the items' subtotals, the product discount
  is the total of the best-discount report, the customer discount is
  \<open>(subtotal - product_discount) * tier_discount_percent / 100\<close> when
  \<open>apply_customer_discount\<close> is true and 0 otherwise, the tax is
  \<open>(subtotal - product_discount - customer_discount) * 0.10\<close>, the shipping fee is
  computed on the undiscounted subtotal, and
  \<open>total = subtotal - product_discount - customer_discount + tax_amount + shipping_fee\<close>;
  it returns a breakdown whenever the best-discount report is returned. For a cart of
  one item of unit price 100,000 and quantity 2, no rules and a Bronze customer the
  breakdown is subtotal 200,000, discounts 0, tax 20,000, shipping 30,000, total 250,000.
\<close>

theorem C1_final_price_pipeline:
  "(calculate_final_price (engine_with rules) clk cart customer flag = Inr r \<longrightarrow>
      pb_subtotal r = sum_list (map subtotal cart)
    \<and> total_weight r = sum_list (map (\<lambda>item. weight (product item) * real_of_int (quantity item)) cart)
    \<and> calculate_best_discount_combination (engine_with rules) clk cart customer
        = Inr (discount_details r)
    \<and> product_discount r = total_discount (discount_details r)
    \<and> customer_tier_discount r =
        (if flag then (pb_subtotal r - product_discount r) * get_tier_discount customer / 100
         else 0)
    \<and> tax_amount r = (pb_subtotal r - product_discount r - customer_tier_discount r) * 0.10
    \<and> shipping_fee r = calculate_shipping_fee (engine_with rules) (pb_subtotal r) (total_weight r)
    \<and> total r = pb_subtotal r - product_discount r - customer_tier_discount r
                + tax_amount r + shipping_fee r)
   \<and> (calculate_best_discount_combination (engine_with rules) clk cart customer = Inr rep \<longrightarrow>
        (\<exists>r'. calculate_final_price (engine_with rules) clk cart customer flag = Inr r'))
   \<and> calculate_final_price (engine_with []) clk
        [\<lparr>product = p\<lparr>price := 100000, weight := 0\<rparr>, quantity = 2\<rparr>] (c\<lparr>tier := BRONZE\<rparr>) flag
      = Inr \<lparr>pb_subtotal = 200000, product_discount = 0, customer_tier_discount = 0,
             pb_total_discount = 0, tax_amount = 20000, shipping_fee = 30000, total = 250000,
             total_weight = 0,
             discount_details =
               \<lparr>item_discounts = Map.empty, total_discount = 0, applied_rules = [],
                report_subtotal = 200000\<rparr>,
             savings_percentage = 0\<rparr>"
proof (intro conjI impI)
  assume h: "calculate_final_price (engine_with rules) clk cart customer flag = Inr r"
  then obtain rep' where rep': "calculate_best_discount_combination (engine_with rules) clk cart customer = Inr rep'"
    by (cases "calculate_best_discount_combination (engine_with rules) clk cart customer")
       (simp_all add: calculate_final_price_def Let_def)
  note r = h [unfolded calculate_final_price_def Let_def rep' sum.case, simplified, symmetric]
  show "pb_subtotal r = sum_list (map subtotal cart)" unfolding r by simp
  show "total_weight r = sum_list (map (\<lambda>item. weight (product item) * real_of_int (quantity item)) cart)"
    unfolding r by simp
  show "calculate_best_discount_combination (engine_with rules) clk cart customer
        = Inr (discount_details r)" unfolding r by (simp add: rep')
  show "product_discount r = total_discount (discount_details r)" unfolding r by simp
  show "customer_tier_discount r =
        (if flag then (pb_subtotal r - product_discount r) * get_tier_discount customer / 100
         else 0)" unfolding r by simp
  show "tax_amount r = (pb_subtotal r - product_discount r - customer_tier_discount r) * 0.10"
    unfolding r by (simp add: engine_with_fields)
  show "shipping_fee r = calculate_shipping_fee (engine_with rules) (pb_subtotal r) (total_weight r)"
    unfolding r by simp
  show "total r = pb_subtotal r - product_discount r - customer_tier_discount r
                + tax_amount r + shipping_fee r" unfolding r by simp
next
  assume "calculate_best_discount_combination (engine_with rules) clk cart customer = Inr rep"
  then show "\<exists>r'. calculate_final_price (engine_with rules) clk cart customer flag = Inr r'"
    by (simp add: calculate_final_price_def Let_def)
next
  show "calculate_final_price (engine_with []) clk
        [\<lparr>product = p\<lparr>price := 100000, weight := 0\<rparr>, quantity = 2\<rparr>] (c\<lparr>tier := BRONZE\<rparr>) flag
      = Inr \<lparr>pb_subtotal = 200000, product_discount = 0, customer_tier_discount = 0,
             pb_total_discount = 0, tax_amount = 20000, shipping_fee = 30000, total = 250000,
             total_weight = 0,
             discount_details =
               \<lparr>item_discounts = Map.empty, total_discount = 0, applied_rules = [],
                report_subtotal = 200000\<rparr>,
             savings_percentage = 0\<rparr>"
    by (simp add: calculate_final_price_def calculate_best_discount_combination_def
        engine_with_fields calculate_shipping_fee_def subtotal_def)
qed


theorem C1_final_price_pipeline_witness:
  "calculate_final_price (engine_with [flash_sale]) (\<lambda>n. 0) (one_item 1000000 1) (mk_customer SILVER) True
     = Inr \<lparr>pb_subtotal = 1000000, product_discount = 150000, customer_tier_discount = 42500,
             pb_total_discount = 192500, tax_amount = 80750, shipping_fee = 0, total = 888250,
             total_weight = 0,
             discount_details =
               \<lparr>item_discounts = [(1, 1) \<mapsto>
                   \<lparr>entry_product_name = ''P'', discount_amount = 150000,
                    entry_rule_name = ''Flash'', original_price = 1000000\<rparr>],
                total_discount = 150000, applied_rules = [''Flash''],
                report_subtotal = 1000000\<rparr>,
             savings_percentage = 19.25\<rparr>
   \<and> calculate_best_discount_combination (engine_with [flash_sale]) (\<lambda>n. 0) (one_item 1000000 1)
        (mk_customer SILVER)
     = Inr \<lparr>item_discounts = [(1, 1) \<mapsto>
                   \<lparr>entry_product_name = ''P'', discount_amount = 150000,
                    entry_rule_name = ''Flash'', original_price = 1000000\<rparr>],
                total_discount = 150000, applied_rules = [''Flash''],
                report_subtotal = 1000000\<rparr>
   \<and> (1000000 - 150000 - 42500) * 0.10 = (80750::real)
   \<and> (1000000::real) - 150000 - 42500 + 80750 + 0 = 888250"
  using C1_final_price_pipeline [of "[flash_sale]" "\<lambda>n. 0" "one_item 1000000 1" "mk_customer SILVER" True
    "\<lparr>pb_subtotal = 1000000, product_discount = 150000, customer_tier_discount = 42500,
             pb_total_discount = 192500, tax_amount = 80750, shipping_fee = 0, total = 888250,
             total_weight = 0,
             discount_details =
               \<lparr>item_discounts = [(1, 1) \<mapsto>
                   \<lparr>entry_product_name = ''P'', discount_amount = 150000,
                    entry_rule_name = ''Flash'', original_price = 1000000\<rparr>],
                total_discount = 150000, applied_rules = [''Flash''],
                report_subtotal = 1000000\<rparr>,
             savings_percentage = 19.25\<rparr>"]
  by (simp add: eval_defs)


section \<open>Invalid items and rules\<close>

text \<open>
  C4, as the claim states it, fails: a cart whose item has quantity minus 2 and weight
  minus 1 is not rejected; the pipeline runs and returns a breakdown with a subtotal of
  minus 200 and a total of minus 220.
\<close>

theorem C4_counterexample:
  "calculate_final_price (engine_with []) (\<lambda>n. 0)
     [\<lparr>product = (mk_product 1 100)\<lparr>weight := - 1\<rparr>, quantity = - 2\<rparr>] (mk_customer BRONZE) True
   = Inr \<lparr>pb_subtotal = - 200, product_discount = 0, customer_tier_discount = 0,
          pb_total_discount = 0, tax_amount = - 20, shipping_fee = 0, total = - 220,
          total_weight = 2,
          discount_details =
            \<lparr>item_discounts = Map.empty, total_discount = 0, applied_rules = [],
             report_subtotal = - 200\<rparr>,
          savings_percentage = 0\<rparr>"
  by (simp add: eval_defs)


text \<open>
  C4, amended. \<open>calculate_final_price\<close> validates nothing. For every cart (also one with an
  item of non-positive quantity or of negative price, cost or weight) and every list of
  rules (whatever their tier thresholds) in which no \<open>BUY_X_GET_Y\<close> rule has
  \<open>buy_quantity = 0\<close>, it returns a breakdown; the only failure it reports is the
  \<open>ZeroDivisionError\<close> of such a rule.
\<close>

theorem C4_no_validation:
  "(\<not> list_ex zero_buy_rule rules \<longrightarrow>
      (\<exists>r. calculate_final_price (engine_with rules) clk cart customer flag = Inr r))
   \<and> (calculate_final_price (engine_with rules) clk cart customer flag = Inl e \<longrightarrow>
        e = ZeroDivisionError \<and> list_ex zero_buy_rule rules)"
  using final_price_returns [of "engine_with rules" clk cart customer flag]
    final_price_error [of "engine_with rules" clk cart customer flag e]
  by (simp add: engine_with_fields)

theorem C4_no_validation_witness:
  "\<not> list_ex zero_buy_rule [flash_sale]
   \<and> (\<exists>r. calculate_final_price (engine_with [flash_sale]) (\<lambda>n. 0) (one_item (- 100) 0)
          (mk_customer BRONZE) True = Inr r)
   \<and> calculate_final_price (engine_with [mk_rule ''B'' BUY_X_GET_Y 0]) (\<lambda>n. 0) (one_item 100 1)
          (mk_customer BRONZE) True = Inl ZeroDivisionError
   \<and> list_ex zero_buy_rule [mk_rule ''B'' BUY_X_GET_Y 0]"
  using C4_no_validation [of "[flash_sale]" "\<lambda>n. 0" "one_item (- 100) 0" "mk_customer BRONZE" True]
    C4_no_validation [of "[mk_rule ''B'' BUY_X_GET_Y 0]" "\<lambda>n. 0" "one_item 100 1" "mk_customer BRONZE" True
      ZeroDivisionError]
  by (simp add: eval_defs zero_buy_rule_def)


section \<open>The total and the loyalty tier\<close>













section \<open>The best-discount selection\<close>

lemma Max_insert_le:
  fixes a b :: real
  assumes "finite S" "a \<le> b"
  shows "Max (insert a (insert b S)) = Max (insert b S)"
proof -
  have m: "Max (insert a (insert b S)) = max a (Max (insert b S))"
    using assms(1) by (intro Max_insert) simp_all
  have "b \<le> Max (insert b S)" using assms(1) by (intro Max_ge) simp_all
  with assms(2) have "a \<le> Max (insert b S)" by (rule order_trans)
  then have "max a (Max (insert b S)) = Max (insert b S)" by (rule max_absorb2)
  with m show ?thesis by (rule trans)
qed

lemma Max_insert_swap:
  fixes a b :: real
  assumes "finite S" "a \<le> b"
  shows "Max (insert b (insert a S)) = Max (insert b S)"
proof -
  have "insert b (insert a S) = insert a (insert b S)" by (rule insert_commute)
  then show ?thesis using Max_insert_le [OF assms] by (simp only:)
qed

lemma find_fst_Cons:
  "map_option snd (find (\<lambda>p. fst p = b) ((d, rule) # ds)) =
     (if d = b then Some rule else map_option snd (find (\<lambda>p. fst p = b) ds))"
  by simp

lemma best_rule_loop_scan:
  assumes "best_rule_loop clk n item customer rules (bd, br) = Inr (bd', br')"
  shows "bd' = Max (set (bd # map fst (rule_discounts clk n item customer rules)))
       \<and> br' = (if bd' = bd then br
               else map_option snd (find (\<lambda>p. fst p = bd') (rule_discounts clk n item customer rules)))"
  using assms
proof (induction rules arbitrary: n bd br)
  case Nil
  then show ?case by simp
next
  case (Cons rule rules)
  let ?ds = "rule_discounts clk (Suc n) item customer rules"
  obtain d where d: "calculate_item_discount (clk n) item rule customer = Inr d"
    using Cons.prems by (cases "calculate_item_discount (clk n) item rule customer") simp_all
  then have dof: "discount_of (clk n) item rule customer = d" by (simp add: discount_of_def)
  have ds: "rule_discounts clk n item customer (rule # rules) = (d, rule) # ?ds"
    using dof by simp
  have sets: "set (bd # map fst ((d, rule) # ?ds)) = insert bd (insert d (set (map fst ?ds)))"
    by simp
  show ?case
  proof (cases "d > bd")
    case True
    then have "best_rule_loop clk (Suc n) item customer rules (d, Some rule) = Inr (bd', br')"
      using Cons.prems d by simp
    then have ih: "bd' = Max (set (d # map fst ?ds))"
      "br' = (if bd' = d then Some rule else map_option snd (find (\<lambda>p. fst p = bd') ?ds))"
      using Cons.IH by blast+
    have ge: "d \<le> bd'" unfolding ih(1) by (intro Max_ge) simp_all
    have "Max (insert bd (insert d (set (map fst ?ds)))) = Max (insert d (set (map fst ?ds)))"
      using True by (intro Max_insert_le) simp_all
    then have m: "bd' = Max (set (bd # map fst ((d, rule) # ?ds)))"
      unfolding sets using ih(1) by simp
    have ne: "bd' \<noteq> bd" using ge True by simp
    have b: "br' = (if bd' = bd then br
       else map_option snd (find (\<lambda>p. fst p = bd') ((d, rule) # ?ds)))"
    proof (cases "bd' = d")
      case True
      then show ?thesis using ne ih(2) by (simp only: find_fst_Cons) simp
    next
      case False
      then have "d \<noteq> bd'" by simp
      then show ?thesis using ne ih(2) False by (simp only: find_fst_Cons if_False)
    qed
    show ?thesis unfolding ds using m b by (rule conjI)
  next
    case False
    then have "best_rule_loop clk (Suc n) item customer rules (bd, br) = Inr (bd', br')"
      using Cons.prems d by simp
    then have ih: "bd' = Max (set (bd # map fst ?ds))"
      "br' = (if bd' = bd then br else map_option snd (find (\<lambda>p. fst p = bd') ?ds))"
      using Cons.IH by blast+
    have ge: "bd \<le> bd'" unfolding ih(1) by (intro Max_ge) simp_all
    have "Max (insert bd (insert d (set (map fst ?ds)))) = Max (insert bd (set (map fst ?ds)))"
      using False by (intro Max_insert_swap) simp_all
    then have m: "bd' = Max (set (bd # map fst ((d, rule) # ?ds)))"
      unfolding sets using ih(1) by simp
    have b: "br' = (if bd' = bd then br
       else map_option snd (find (\<lambda>p. fst p = bd') ((d, rule) # ?ds)))"
    proof (cases "bd' = bd")
      case True
      then show ?thesis using ih(2) by simp
    next
      case ne: False
      then have "d \<noteq> bd'" using ge False by simp
      then show ?thesis using ne ih(2) by (simp only: find_fst_Cons if_False)
    qed
    show ?thesis unfolding ds using m b by (rule conjI)
  qed
qed

lemma find_fst_Some:
  "b \<in> set (map fst ds) \<Longrightarrow> \<exists>r. find (\<lambda>p. fst p = b) ds = Some (b, r)"
  by (induction ds) auto

lemma best_rule_loop_spec:
  assumes "best_rule_loop clk n item customer rules (0, None) = Inr (bd, br)"
  shows "(0 < bd \<and> (\<exists>rule. br = Some rule \<and>
            spec_best (rule_discounts clk n item customer rules) = Some (bd, rule)))
       \<or> (\<not> 0 < bd \<and> spec_best (rule_discounts clk n item customer rules) = None)"
proof -
  let ?ds = "rule_discounts clk n item customer rules"
  have "bd = Max (set (0 # map fst ?ds))"
    using best_rule_loop_scan [OF assms] by (rule conjunct1)
  then have s1: "Max (set (0 # map fst ?ds)) = bd" by (rule sym)
  have s2: "br = (if bd = 0 then None else map_option snd (find (\<lambda>p. fst p = bd) ?ds))"
    using best_rule_loop_scan [OF assms] by (rule conjunct2)
  have sb: "spec_best ?ds = (if bd > 0 then find (\<lambda>p. fst p = bd) ?ds else None)"
    unfolding spec_best_def Let_def s1 by (rule refl)
  show ?thesis
  proof (cases "0 < bd")
    case True
    have "Max (set (0 # map fst ?ds)) \<in> set (0 # map fst ?ds)" by (intro Max_in) simp_all
    then have "bd \<in> set (0 # map fst ?ds)" unfolding s1 .
    then have "bd \<in> set (map fst ?ds)" using True by auto
    then have "\<exists>r. find (\<lambda>p. fst p = bd) ?ds = Some (bd, r)" by (rule find_fst_Some)
    then obtain rule where f: "find (\<lambda>p. fst p = bd) ?ds = Some (bd, rule)" ..
    have "bd \<noteq> 0" using True by simp
    then have "br = Some rule" unfolding s2 f by simp
    moreover have "spec_best ?ds = Some (bd, rule)" unfolding sb f using True by simp
    ultimately show ?thesis using True by blast
  next
    case False
    then have "spec_best ?ds = None" unfolding sb by simp
    then show ?thesis using False by blast
  qed
qed

lemma map_add_entry:
  "m(k \<mapsto> v) ++ map_of (rev xs) = m ++ map_of (rev ((k, v) # xs))"
  by (rule ext) (simp add: map_add_def split: option.splits)

lemma record_item_fields:
  assumes "record_item item bd (Some rule) res = Inr res'"
  shows "item_discounts res' ++ map_of (rev xs) =
           item_discounts res ++ map_of (rev (spec_entry (item, bd, rule) # xs))"
    and "total_discount res' = total_discount res + bd"
    and "report_subtotal res' = report_subtotal res"
    and "set (applied_rules res') = insert (rule_name rule) (set (applied_rules res))"
    and "distinct (applied_rules res) \<Longrightarrow> distinct (applied_rules res')"
proof -
  have r: "res' = res
     \<lparr>item_discounts := (item_discounts res)(item_key_of item \<mapsto>
          \<lparr>entry_product_name = product_name (product item), discount_amount = bd,
           entry_rule_name = rule_name rule, original_price = subtotal item\<rparr>),
      total_discount := total_discount res + bd,
      applied_rules :=
        (if rule_name rule \<notin> set (applied_rules res)
         then applied_rules res @ [rule_name rule] else applied_rules res)\<rparr>"
    using assms by (simp add: record_item_def)
  show "item_discounts res' ++ map_of (rev xs) =
           item_discounts res ++ map_of (rev (spec_entry (item, bd, rule) # xs))"
    unfolding r spec_entry_def by (simp only: map_add_entry [symmetric] prod.case) simp
  show "total_discount res' = total_discount res + bd" unfolding r by simp
  show "report_subtotal res' = report_subtotal res" unfolding r by simp
  show "set (applied_rules res') = insert (rule_name rule) (set (applied_rules res))"
    unfolding r by (cases "rule_name rule \<in> set (applied_rules res)") auto
  show "distinct (applied_rules res) \<Longrightarrow> distinct (applied_rules res')"
    unfolding r by (cases "rule_name rule \<in> set (applied_rules res)") auto
qed

lemma items_loop_spec:
  assumes "items_loop clk n rules customer items res = Inr rep"
  shows "item_discounts rep =
           item_discounts res ++ map_of (rev (map spec_entry (spec_winners clk n rules customer items)))
       \<and> total_discount rep =
           total_discount res + sum_list (map winner_discount (spec_winners clk n rules customer items))
       \<and> report_subtotal rep = report_subtotal res
       \<and> set (applied_rules rep) =
           set (applied_rules res) \<union> set (map winner_name (spec_winners clk n rules customer items))
       \<and> (distinct (applied_rules res) \<longrightarrow> distinct (applied_rules rep))"
  using assms
proof (induction items arbitrary: n res)
  case Nil
  then show ?case by simp
next
  case (Cons item items)
  let ?ws = "spec_winners clk (n + length rules) rules customer items"
  obtain bd br where best: "best_rule_loop clk n item customer rules (0, None) = Inr (bd, br)"
    using Cons.prems
    by (cases "best_rule_loop clk n item customer rules (0, None)") auto
  show ?case
  proof (cases "0 < bd")
    case True
    then obtain rule where rule: "br = Some rule"
      "spec_best (rule_discounts clk n item customer rules) = Some (bd, rule)"
      using best_rule_loop_spec [OF best] by blast
    have ws: "spec_winners clk n rules customer (item # items) = (item, bd, rule) # ?ws"
      using rule(2) by simp
    obtain res' where res': "record_item item bd (Some rule) res = Inr res'"
      by (simp add: record_item_def)
    note f = record_item_fields [OF res']
    have "items_loop clk (n + length rules) rules customer items res' = Inr rep"
      using Cons.prems best True rule(1) res' by simp
    note ih = Cons.IH [OF this]
    have ih1: "item_discounts rep = item_discounts res' ++ map_of (rev (map spec_entry ?ws))"
      and ih2: "total_discount rep = total_discount res' + sum_list (map winner_discount ?ws)"
      and ih3: "report_subtotal rep = report_subtotal res'"
      and ih4: "set (applied_rules rep) = set (applied_rules res') \<union> set (map winner_name ?ws)"
      and ih5: "distinct (applied_rules res') \<longrightarrow> distinct (applied_rules rep)"
      using ih by simp_all
    have wd: "winner_discount (item, bd, rule) = bd" by (simp add: winner_discount_def)
    have wn: "winner_name (item, bd, rule) = rule_name rule" by (simp add: winner_name_def)
    have g1: "item_discounts rep = item_discounts res ++ map_of (rev (map spec_entry ((item, bd, rule) # ?ws)))"
      unfolding ih1 list.map by (rule f(1))
    have g2: "total_discount rep = total_discount res + sum_list (map winner_discount ((item, bd, rule) # ?ws))"
      unfolding ih2 f(2) by (simp add: wd)
    have g3: "report_subtotal rep = report_subtotal res" unfolding ih3 by (rule f(3))
    have g4: "set (applied_rules rep) =
           set (applied_rules res) \<union> set (map winner_name ((item, bd, rule) # ?ws))"
      unfolding ih4 f(4) by (simp add: wn)
    have g5: "distinct (applied_rules res) \<longrightarrow> distinct (applied_rules rep)"
      using ih5 f(5) by blast
    show ?thesis unfolding ws using g1 g2 g3 g4 g5 by (intro conjI)
  next
    case False
    then have sb: "spec_best (rule_discounts clk n item customer rules) = None"
      using best_rule_loop_spec [OF best] by blast
    have ws: "spec_winners clk n rules customer (item # items) = ?ws"
      using sb by simp
    have "items_loop clk (n + length rules) rules customer items res = Inr rep"
      using Cons.prems best False by simp
    then show ?thesis unfolding ws by (rule Cons.IH)
  qed
qed


lemma best_rule_loop_all_Inr:
  assumes "best_rule_loop clk n item customer rules best = Inr res" and "j < length rules"
  shows "\<exists>d. calculate_item_discount (clk (n + j)) item (rules ! j) customer = Inr d"
  using assms
proof (induction rules arbitrary: n best j)
  case Nil
  then show ?case by simp
next
  case (Cons rule rules)
  obtain bd br where best: "best = (bd, br)" by (cases best)
  obtain d where d: "calculate_item_discount (clk n) item rule customer = Inr d"
    using Cons.prems(1) best
    by (cases "calculate_item_discount (clk n) item rule customer") simp_all
  show ?case
  proof (cases j)
    case 0
    then show ?thesis using d by simp
  next
    case (Suc j')
    obtain best' where "best_rule_loop clk (Suc n) item customer rules best' = Inr res"
      using Cons.prems(1) best d by (cases "d > bd") simp_all
    moreover have "j' < length rules" using Cons.prems(2) Suc by simp
    ultimately have "\<exists>d. calculate_item_discount (clk (Suc n + j')) item (rules ! j') customer = Inr d"
      by (rule Cons.IH)
    then show ?thesis using Suc by simp
  qed
qed

lemma items_loop_all_Inr:
  assumes "items_loop clk n rules customer items res = Inr rep"
    and "i < length items" and "j < length rules"
  shows "\<exists>d. calculate_item_discount (clk (n + i * length rules + j)) (items ! i) (rules ! j) customer = Inr d"
  using assms
proof (induction items arbitrary: n res i)
  case Nil
  then show ?case by simp
next
  case (Cons item items)
  obtain bd br where best: "best_rule_loop clk n item customer rules (0, None) = Inr (bd, br)"
    using Cons.prems(1)
    by (cases "best_rule_loop clk n item customer rules (0, None)") auto
  show ?case
  proof (cases i)
    case 0
    then show ?thesis using best_rule_loop_all_Inr [OF best Cons.prems(3)] by simp
  next
    case (Suc i')
    obtain res' where "items_loop clk (n + length rules) rules customer items res' = Inr rep"
      using Cons.prems(1) best
      by (cases "0 < bd"; cases "record_item item bd br res") simp_all
    moreover have "i' < length items" using Cons.prems(2) Suc by simp
    ultimately have "\<exists>d. calculate_item_discount (clk (n + length rules + i' * length rules + j))
        (items ! i') (rules ! j) customer = Inr d"
      using Cons.prems(3) by (rule Cons.IH)
    then show ?thesis using Suc by (simp add: add.assoc)
  qed
qed

lemma spec_best_Some:
  assumes "spec_best ds = Some (d, rule)"
  shows "0 < d \<and> (\<forall>p\<in>set ds. fst p \<le> d)
       \<and> (\<exists>j<length ds. ds ! j = (d, rule) \<and> (\<forall>k<j. fst (ds ! k) < d))"
proof -
  define b where "b = Max (set (0 # map fst ds))"
  have sb: "spec_best ds = (if b > 0 then find (\<lambda>p. fst p = b) ds else None)"
    unfolding spec_best_def Let_def b_def by (rule refl)
  have pos: "0 < b" using assms unfolding sb by (cases "0 < b") simp_all
  then have f: "find (\<lambda>p. fst p = b) ds = Some (d, rule)" using assms unfolding sb by simp
  then obtain j where j: "j < length ds" "fst (ds ! j) = b" "(d, rule) = ds ! j"
      "\<forall>k<j. \<not> fst (ds ! k) = b"
    unfolding find_Some_iff by blast
  have db: "d = b" using j(2,3) by (metis fst_conv)
  have ge: "\<forall>p\<in>set ds. fst p \<le> b"
  proof
    fix p assume "p \<in> set ds"
    then have "fst p \<in> set (0 # map fst ds)" by simp
    then show "fst p \<le> b" unfolding b_def by (intro Max_ge) simp_all
  qed
  have "\<forall>k<j. fst (ds ! k) < b"
  proof (intro allI impI)
    fix k assume k: "k < j"
    then have "ds ! k \<in> set ds" using j(1) by simp
    then have "fst (ds ! k) \<le> b" using ge by blast
    moreover have "fst (ds ! k) \<noteq> b" using j(4) k by blast
    ultimately show "fst (ds ! k) < b" by simp
  qed
  then have "\<exists>j<length ds. ds ! j = (d, rule) \<and> (\<forall>k<j. fst (ds ! k) < d)"
    using j(1,3) db by metis
  then show ?thesis using pos ge db by simp
qed

lemma spec_best_None:
  assumes "spec_best ds = None"
  shows "\<forall>p\<in>set ds. fst p \<le> 0"
proof -
  define b where "b = Max (set (0 # map fst ds))"
  have sb: "spec_best ds = (if b > 0 then find (\<lambda>p. fst p = b) ds else None)"
    unfolding spec_best_def Let_def b_def by (rule refl)
  have ge: "\<forall>p\<in>set ds. fst p \<le> b"
  proof
    fix p assume "p \<in> set ds"
    then have "fst p \<in> set (0 # map fst ds)" by simp
    then show "fst p \<le> b" unfolding b_def by (intro Max_ge) simp_all
  qed
  have "\<not> 0 < b"
  proof
    assume pos: "0 < b"
    have "b \<in> set (0 # map fst ds)" unfolding b_def by (intro Max_in) simp_all
    then have "b \<in> set (map fst ds)" using pos by auto
    then have "\<exists>r. find (\<lambda>p. fst p = b) ds = Some (b, r)" by (rule find_fst_Some)
    then show False using assms pos unfolding sb by auto
  qed
  then show ?thesis using ge by fastforce
qed

text \<open>
  C3. Whenever \<open>calculate_best_discount_combination\<close> returns a report, every call of
  \<open>calculate_item_discount\<close> it made returned an amount, and the report is the one of the
  specification: each item is assigned the single rule with the greatest discount, the
  first such rule of the list on ties (\<open>spec_best\<close>: the discount is positive, no rule
  yields more, every earlier rule yields strictly less); an item whose best discount is
  0 has no entry in the itemized report, which maps the key of each other item to its
  entry (a later item with the same key replaces an earlier one), and the reported
  subtotal is the sum of the subtotals of all items; \<open>total_discount\<close> is the sum of the
  winning discounts; \<open>applied_rules\<close> has no duplicates and holds exactly the names of
  the rules that won an item.
\<close>

theorem C3_best_discount_combination:
  assumes "calculate_best_discount_combination eng clk cart customer = Inr rep"
  shows "item_discounts rep =
           map_of (rev (map spec_entry (spec_winners clk 0 (discount_rules eng) customer cart)))
       \<and> total_discount rep =
           sum_list (map winner_discount (spec_winners clk 0 (discount_rules eng) customer cart))
       \<and> distinct (applied_rules rep)
       \<and> set (applied_rules rep) =
           set (map winner_name (spec_winners clk 0 (discount_rules eng) customer cart))
       \<and> report_subtotal rep = sum_list (map subtotal cart)
       \<and> (i < length cart \<and> j < length (discount_rules eng) \<longrightarrow>
            (\<exists>d. calculate_item_discount (clk (i * length (discount_rules eng) + j))
                   (cart ! i) (discount_rules eng ! j) customer = Inr d))
       \<and> (spec_best ds = Some (d, rule) \<longrightarrow>
            0 < d \<and> (\<forall>p\<in>set ds. fst p \<le> d)
            \<and> (\<exists>j<length ds. ds ! j = (d, rule) \<and> (\<forall>k<j. fst (ds ! k) < d)))
       \<and> (spec_best ds = None \<longrightarrow> (\<forall>p\<in>set ds. fst p \<le> 0))"
proof -
  let ?init = "\<lparr>item_discounts = Map.empty, total_discount = 0, applied_rules = [],
        report_subtotal = sum_list (map subtotal cart)\<rparr>"
  have loop: "items_loop clk 0 (discount_rules eng) customer cart ?init = Inr rep"
    using assms by (simp add: calculate_best_discount_combination_def)
  note s = items_loop_spec [OF loop]
  have g1: "item_discounts rep =
           map_of (rev (map spec_entry (spec_winners clk 0 (discount_rules eng) customer cart)))"
    using s by simp
  have g2: "total_discount rep =
           sum_list (map winner_discount (spec_winners clk 0 (discount_rules eng) customer cart))"
    using s by simp
  have g3: "distinct (applied_rules rep)" using s by simp
  have g4: "set (applied_rules rep) =
           set (map winner_name (spec_winners clk 0 (discount_rules eng) customer cart))"
    using s by simp
  have g5: "report_subtotal rep = sum_list (map subtotal cart)" using s by simp
  have g6: "i < length cart \<and> j < length (discount_rules eng) \<longrightarrow>
            (\<exists>d. calculate_item_discount (clk (i * length (discount_rules eng) + j))
                   (cart ! i) (discount_rules eng ! j) customer = Inr d)"
    using items_loop_all_Inr [OF loop, of i j] by simp
  have g7: "spec_best ds = Some (d, rule) \<longrightarrow>
            0 < d \<and> (\<forall>p\<in>set ds. fst p \<le> d)
            \<and> (\<exists>j<length ds. ds ! j = (d, rule) \<and> (\<forall>k<j. fst (ds ! k) < d))"
    using spec_best_Some by blast
  have g8: "spec_best ds = None \<longrightarrow> (\<forall>p\<in>set ds. fst p \<le> 0)"
    using spec_best_None by blast
  show ?thesis using g1 g2 g3 g4 g5 g6 g7 g8 by (intro conjI)
qed


theorem C3_best_discount_combination_witness:
  "calculate_best_discount_combination (engine_with three_rules) (\<lambda>n. 0) three_items (mk_customer BRONZE)
     = Inr \<lparr>item_discounts =
              [(1, 1) \<mapsto> \<lparr>entry_product_name = ''P'', discount_amount = 100,
                           entry_rule_name = ''A'', original_price = 1000\<rparr>,
               (2, 2) \<mapsto> \<lparr>entry_product_name = ''P'', discount_amount = 100,
                           entry_rule_name = ''B'', original_price = 200\<rparr>],
            total_discount = 200, applied_rules = [''A'', ''B''], report_subtotal = 1200\<rparr>
   \<and> spec_winners (\<lambda>n. 0) 0 three_rules (mk_customer BRONZE) three_items
     = [(three_items ! 0, 100, three_rules ! 0), (three_items ! 1, 100, three_rules ! 1)]
   \<and> spec_best (rule_discounts (\<lambda>n. 0) 0 (three_items ! 0) (mk_customer BRONZE) three_rules)
     = Some (100, three_rules ! 0)
   \<and> spec_best (rule_discounts (\<lambda>n. 0) 6 (three_items ! 2) (mk_customer BRONZE) three_rules)
     = None"
  using C3_best_discount_combination [of "engine_with three_rules" "\<lambda>n. 0" three_items "mk_customer BRONZE"
      "\<lparr>item_discounts =
              [(1, 1) \<mapsto> \<lparr>entry_product_name = ''P'', discount_amount = 100,
                           entry_rule_name = ''A'', original_price = 1000\<rparr>,
               (2, 2) \<mapsto> \<lparr>entry_product_name = ''P'', discount_amount = 100,
                           entry_rule_name = ''B'', original_price = 200\<rparr>],
            total_discount = 200, applied_rules = [''A'', ''B''], report_subtotal = 1200\<rparr>"
      1 1 "rule_discounts (\<lambda>n. 0) 0 (three_items ! 0) (mk_customer BRONZE) three_rules"
      100 "three_rules ! 0"]
    C3_best_discount_combination [of "engine_with three_rules" "\<lambda>n. 0" three_items "mk_customer BRONZE"
      "\<lparr>item_discounts =
              [(1, 1) \<mapsto> \<lparr>entry_product_name = ''P'', discount_amount = 100,
                           entry_rule_name = ''A'', original_price = 1000\<rparr>,
               (2, 2) \<mapsto> \<lparr>entry_product_name = ''P'', discount_amount = 100,
                           entry_rule_name = ''B'', original_price = 200\<rparr>],
            total_discount = 200, applied_rules = [''A'', ''B''], report_subtotal = 1200\<rparr>"
      1 1 "rule_discounts (\<lambda>n. 0) 6 (three_items ! 2) (mk_customer BRONZE) three_rules"
      100 "three_rules ! 0"]
  by (simp add: eval_defs three_rules_def three_items_def spec_best_def discount_of_def)


end
